theory Spec2Isabelle
  imports Complex_Main "HOL-Library.Sublist"
begin

section \<open>Data model\<close>

text \<open>
  The provider-selection and dispatch layer of the gateway: \<^verbatim>\<open>ProviderManager\<close> with its
  selection strategies (services/ProviderManager.ts) and \<^verbatim>\<open>G4FService\<close>
  (services/G4FService.ts). Field types follow the TypeScript interfaces; optional
  fields (\<^verbatim>\<open>error?: string\<close>) are options. A \<^verbatim>\<open>Date\<close> is either parsed from a
  text (\<^verbatim>\<open>new Date(s)\<close>) or read from the clock (\<^verbatim>\<open>new Date()\<close>); clock readings are
  passed to the operations as milliseconds.
\<close>

datatype ProviderStatus = Available | Unavailable | RateLimited | Unknown

datatype Date = DateOf string | DateAt int

record Provider =
  p_id :: string
  p_name :: string
  p_status :: ProviderStatus
  p_lastChecked :: Date
  p_model :: "string option"

record ProviderHealthStatus =
  providerId :: string
  isHealthy :: bool
  lastChecked :: Date
  consecutiveFailures :: int
  error :: "string option"

text \<open>
  The three strategy classes. \<^verbatim>\<open>RoundRobinStrategy\<close> carries its \<^verbatim>\<open>currentIndex\<close>,
  \<^verbatim>\<open>PriorityStrategy\<close> its \<^verbatim>\<open>priorityOrder\<close>.
\<close>

datatype Strategy =
    RoundRobinStrategy nat
  | RandomStrategy
  | PriorityStrategy "string list"

record ProviderManager =
  providerHealth :: "string \<rightharpoonup> ProviderHealthStatus"
  maxConsecutiveFailures :: int
  selectionStrategy :: Strategy

text \<open>A value caught by a \<^verbatim>\<open>catch\<close>: an \<^verbatim>\<open>Error\<close> with its message, or anything else.\<close>

datatype thrown = ErrorObj string | NonError

text \<open>The result of \<^verbatim>\<open>G4FService.testProvider\<close>.\<close>

record TestResult =
  t_provider :: string
  t_status :: ProviderStatus
  t_lastChecked :: Date
  t_error :: "string option"

section \<open>Selection strategies\<close>

definition is_available :: "Provider \<Rightarrow> bool" where
  "is_available p = (p_status p = Available)"

definition RoundRobin_selectProvider :: "nat \<Rightarrow> Provider list \<Rightarrow> Provider option \<times> nat" where
  "RoundRobin_selectProvider currentIndex providers =
     (let availableProviders = filter is_available providers in
      if length availableProviders = 0 then (None, currentIndex)
      else (Some (availableProviders ! (currentIndex mod length availableProviders)),
            (currentIndex + 1) mod length availableProviders))"

text \<open>
  \<^verbatim>\<open>Math.floor(Math.random() * n)\<close>; the draw is a parameter. An index outside the
  array reads \<^verbatim>\<open>undefined\<close>, which is no provider.
\<close>

definition Random_selectProvider :: "real \<Rightarrow> Provider list \<Rightarrow> Provider option" where
  "Random_selectProvider rnd providers =
     (let availableProviders = filter is_available providers in
      if length availableProviders = 0 then None
      else (let randomIndex = \<lfloor>rnd * real (length availableProviders)\<rfloor> in
            if 0 \<le> randomIndex \<and> randomIndex < int (length availableProviders)
            then Some (availableProviders ! nat randomIndex) else None))"

text \<open>The \<^verbatim>\<open>for (const priorityId of this.priorityOrder)\<close> loop with its early return.\<close>

fun priority_loop :: "string list \<Rightarrow> Provider list \<Rightarrow> Provider option" where
  "priority_loop [] availableProviders = None"
| "priority_loop (priorityId # rest) availableProviders =
     (case find (\<lambda>p. p_id p = priorityId) availableProviders of
        Some provider \<Rightarrow> Some provider
      | None \<Rightarrow> priority_loop rest availableProviders)"

definition Priority_selectProvider :: "string list \<Rightarrow> Provider list \<Rightarrow> Provider option" where
  "Priority_selectProvider priorityOrder providers =
     (let availableProviders = filter is_available providers in
      if length availableProviders = 0 then None
      else (case priority_loop priorityOrder availableProviders of
              Some provider \<Rightarrow> Some provider
            | None \<Rightarrow> Some (availableProviders ! 0)))"

definition default_priorityOrder :: "string list" where
  "default_priorityOrder = [''bing'', ''chatgptai'', ''you'', ''freegpt'']"

text \<open>Dynamic dispatch on the strategy object; the strategy's own state is returned.\<close>

fun strategy_selectProvider :: "Strategy \<Rightarrow> real \<Rightarrow> Provider list \<Rightarrow> Provider option \<times> Strategy" where
  "strategy_selectProvider (RoundRobinStrategy currentIndex) rnd providers =
     (case RoundRobin_selectProvider currentIndex providers of
        (r, i) \<Rightarrow> (r, RoundRobinStrategy i))"
| "strategy_selectProvider RandomStrategy rnd providers =
     (Random_selectProvider rnd providers, RandomStrategy)"
| "strategy_selectProvider (PriorityStrategy priorityOrder) rnd providers =
     (Priority_selectProvider priorityOrder providers, PriorityStrategy priorityOrder)"

section \<open>Provider manager\<close>

text \<open>\<^verbatim>\<open>x || d\<close> on numbers: zero is falsy.\<close>

definition num_or :: "int \<Rightarrow> int \<Rightarrow> int" where
  "num_or x d = (if x = 0 then d else x)"

text \<open>
  The constructor: \<^verbatim>\<open>selectionStrategy || new PriorityStrategy()\<close>,
  \<^verbatim>\<open>options.maxConsecutiveFailures || 3\<close>, an empty health map.
\<close>

definition new_ProviderManager :: "Strategy option \<Rightarrow> int option \<Rightarrow> ProviderManager" where
  "new_ProviderManager selectionStrategy' maxConsecutiveFailures' =
     \<lparr> providerHealth = Map.empty,
       maxConsecutiveFailures =
         (case maxConsecutiveFailures' of None \<Rightarrow> 3 | Some n \<Rightarrow> num_or n 3),
       selectionStrategy =
         (case selectionStrategy' of None \<Rightarrow> PriorityStrategy default_priorityOrder
          | Some s \<Rightarrow> s) \<rparr>"

definition updateProviderHealth ::
  "ProviderManager \<Rightarrow> int \<Rightarrow> string \<Rightarrow> bool \<Rightarrow> string option \<Rightarrow> ProviderManager" where
  "updateProviderHealth m now providerId' isHealthy' error' =
     (let existing = providerHealth m providerId';
          updated = \<lparr> providerId = providerId',
                      isHealthy = isHealthy',
                      lastChecked = DateAt now,
                      consecutiveFailures =
                        (if isHealthy' then 0
                         else (case existing of None \<Rightarrow> 0
                               | Some e \<Rightarrow> num_or (consecutiveFailures e) 0) + 1),
                      error = (if isHealthy' then None else error') \<rparr>
      in m\<lparr>providerHealth := (providerHealth m)(providerId' \<mapsto> updated)\<rparr>)"

definition isProviderHealthy :: "ProviderManager \<Rightarrow> string \<Rightarrow> bool" where
  "isProviderHealthy m providerId' =
     (case providerHealth m providerId' of
        None \<Rightarrow> True
      | Some health \<Rightarrow> isHealthy health \<and> consecutiveFailures health < maxConsecutiveFailures m)"

definition markProviderFailure ::
  "ProviderManager \<Rightarrow> int \<Rightarrow> string \<Rightarrow> string option \<Rightarrow> ProviderManager" where
  "markProviderFailure m now providerId' error' = updateProviderHealth m now providerId' False error'"

definition markProviderSuccess :: "ProviderManager \<Rightarrow> int \<Rightarrow> string \<Rightarrow> ProviderManager" where
  "markProviderSuccess m now providerId' = updateProviderHealth m now providerId' True None"

text \<open>
  \<^verbatim>\<open>testProviderHealth\<close>: the outcome of \<^verbatim>\<open>g4fService.testProvider\<close> is either a
  rejection (\<^verbatim>\<open>Inl\<close>, handled by the \<^verbatim>\<open>catch\<close>) or a result. Returns what
  \<^verbatim>\<open>providerHealth.get\<close> reads afterwards.
\<close>

definition testProviderHealth ::
  "ProviderManager \<Rightarrow> int \<Rightarrow> string \<Rightarrow> thrown + TestResult
     \<Rightarrow> ProviderHealthStatus option \<times> ProviderManager" where
  "testProviderHealth m now providerId' outcome =
     (let m' = (case outcome of
                  Inr result \<Rightarrow>
                    updateProviderHealth m now providerId' (t_status result = Available) (t_error result)
                | Inl (ErrorObj msg) \<Rightarrow> updateProviderHealth m now providerId' False (Some msg)
                | Inl NonError \<Rightarrow> updateProviderHealth m now providerId' False (Some ''Unknown error''))
      in (providerHealth m' providerId', m'))"

text \<open>The loop of \<^verbatim>\<open>getAvailableProviders\<close> over the fetched roster.\<close>

fun update_from_roster :: "ProviderManager \<Rightarrow> int \<Rightarrow> Provider list \<Rightarrow> ProviderManager" where
  "update_from_roster m now [] = m"
| "update_from_roster m now (provider # rest) =
     update_from_roster (updateProviderHealth m now (p_id provider) (p_status provider = Available) None)
       now rest"

text \<open>
  \<^verbatim>\<open>ProviderManager.getAvailableProviders\<close>: \<open>fetched\<close> is the outcome of
  \<^verbatim>\<open>g4fService.getAvailableProviders()\<close>, a rejection being caught and answered with
  the empty list.
\<close>

definition PM_getAvailableProviders ::
  "ProviderManager \<Rightarrow> int \<Rightarrow> thrown + Provider list \<Rightarrow> Provider list \<times> ProviderManager" where
  "PM_getAvailableProviders m now fetched =
     (case fetched of
        Inr providers \<Rightarrow> (providers, update_from_roster m now providers)
      | Inl e \<Rightarrow> ([], m))"

definition selectProvider ::
  "ProviderManager \<Rightarrow> int \<Rightarrow> real \<Rightarrow> thrown + Provider list \<Rightarrow> string option
     \<Rightarrow> Provider option \<times> ProviderManager" where
  "selectProvider m now rnd fetched preferredProvider =
     (case PM_getAvailableProviders m now fetched of (providers, m1) \<Rightarrow>
        (case (case preferredProvider of
                 None \<Rightarrow> None
               | Some pref \<Rightarrow>
                   if pref = [] then None
                   else find (\<lambda>p. p_id p = pref \<and> p_status p = Available \<and> isProviderHealthy m1 pref)
                          providers) of
           Some preferred \<Rightarrow> (Some preferred, m1)
         | None \<Rightarrow>
             (let healthyProviders =
                    filter (\<lambda>p. p_status p = Available \<and> isProviderHealthy m1 (p_id p)) providers
              in if length healthyProviders = 0 then (None, m1)
                 else (case strategy_selectProvider (selectionStrategy m1) rnd healthyProviders of
                         (selected, s') \<Rightarrow> (selected, m1\<lparr>selectionStrategy := s'\<rparr>)))))"

text \<open>
  \<^verbatim>\<open>getFallbackProviders\<close>: the sort key is
  \<^verbatim>\<open>health?.consecutiveFailures || 0\<close>; \<^verbatim>\<open>Array.prototype.sort\<close> is stable.
\<close>

definition failures_of :: "ProviderManager \<Rightarrow> Provider \<Rightarrow> int" where
  "failures_of m p =
     (case providerHealth m (p_id p) of None \<Rightarrow> 0 | Some h \<Rightarrow> num_or (consecutiveFailures h) 0)"

definition getFallbackProviders ::
  "ProviderManager \<Rightarrow> int \<Rightarrow> thrown + Provider list \<Rightarrow> string list
     \<Rightarrow> Provider list \<times> ProviderManager" where
  "getFallbackProviders m now fetched excludeProviders =
     (case PM_getAvailableProviders m now fetched of (allProviders, m1) \<Rightarrow>
        (sort_key (failures_of m1)
           (filter (\<lambda>p. p_id p \<notin> set excludeProviders \<and> p_status p = Available
                         \<and> isProviderHealthy m1 (p_id p)) allProviders),
         m1))"

text \<open>
  A history of calls on one manager, each with the clock reading at the call. Only these
  methods write the health map (\<^verbatim>\<open>performHealthCheck\<close> writes it through
  \<^verbatim>\<open>testProviderHealth\<close>).
\<close>

datatype pm_call =
    MarkProviderSuccess string
  | MarkProviderFailure string "string option"
  | TestProviderHealth string "thrown + TestResult"
  | GetAvailableProviders "thrown + Provider list"
  | SelectProvider real "thrown + Provider list" "string option"
  | GetFallbackProviders "thrown + Provider list" "string list"

fun pm_step :: "ProviderManager \<Rightarrow> int \<times> pm_call \<Rightarrow> ProviderManager" where
  "pm_step m (now, MarkProviderSuccess i) = markProviderSuccess m now i"
| "pm_step m (now, MarkProviderFailure i e) = markProviderFailure m now i e"
| "pm_step m (now, TestProviderHealth i outcome) = snd (testProviderHealth m now i outcome)"
| "pm_step m (now, GetAvailableProviders fetched) = snd (PM_getAvailableProviders m now fetched)"
| "pm_step m (now, SelectProvider rnd fetched pref) = snd (selectProvider m now rnd fetched pref)"
| "pm_step m (now, GetFallbackProviders fetched excl) = snd (getFallbackProviders m now fetched excl)"

definition pm_run :: "ProviderManager \<Rightarrow> (int \<times> pm_call) list \<Rightarrow> ProviderManager" where
  "pm_run m calls = foldl pm_step m calls"

text \<open>\<open>n\<close> consecutive \<^verbatim>\<open>markProviderFailure\<close> calls on one provider, each with its own error.\<close>

definition mark_failures ::
  "ProviderManager \<Rightarrow> string \<Rightarrow> (int \<times> string option) list \<Rightarrow> ProviderManager" where
  "mark_failures m i calls = foldl (\<lambda>m' (now, e). markProviderFailure m' now i e) m calls"

text \<open>Auxiliary notions for stating the properties of the health map.\<close>

definition prior_failures :: "ProviderManager \<Rightarrow> string \<Rightarrow> int" where
  "prior_failures m i = (case providerHealth m i of None \<Rightarrow> 0 | Some h \<Rightarrow> consecutiveFailures h)"

definition record_ok :: "ProviderHealthStatus \<Rightarrow> bool" where
  "record_ok h = ((isHealthy h \<longrightarrow> consecutiveFailures h = 0 \<and> error h = None) \<and>
                  (\<not> isHealthy h \<longrightarrow> 1 \<le> consecutiveFailures h))"

definition health_inv :: "ProviderManager \<Rightarrow> bool" where
  "health_inv m = (\<forall>j h. providerHealth m j = Some h \<longrightarrow> record_ok h)"



text \<open>The roster used by the test suite (\<^verbatim>\<open>mockProviders\<close> in ProviderManager.test.ts).\<close>

definition mockProviders :: "Provider list" where
  "mockProviders =
     [\<lparr> p_id = ''bing'', p_name = ''Bing'', p_status = Available, p_lastChecked = DateAt 0,
        p_model = Some ''gpt-3.5-turbo'' \<rparr>,
      \<lparr> p_id = ''chatgptai'', p_name = ''ChatGPT AI'', p_status = Available,
        p_lastChecked = DateAt 0, p_model = None \<rparr>,
      \<lparr> p_id = ''you'', p_name = ''You.com'', p_status = RateLimited, p_lastChecked = DateAt 0,
        p_model = None \<rparr>,
      \<lparr> p_id = ''freegpt'', p_name = ''FreeGPT'', p_status = Unavailable,
        p_lastChecked = DateAt 0, p_model = None \<rparr>]"

section \<open>G4F service\<close>

text \<open>
  A JavaScript value where nothing fixes its type at run time (\<^verbatim>\<open>error: any\<close>, a
  field of a JSON body): \<^verbatim>\<open>undefined\<close> or \<^verbatim>\<open>null\<close>, a string, or any other value
  (a number, a boolean, an object or array of a JSON body), which has no string methods;
  of such a value the model keeps its truthiness and the text \<^verbatim>\<open>String(v)\<close> gives.
\<close>

datatype jsval = Undefined | Str string | Other bool string

fun truthy :: "jsval \<Rightarrow> bool" where
  "truthy Undefined = False"
| "truthy (Str s) = (s \<noteq> [])"
| "truthy (Other t txt) = t"

fun js_String :: "jsval \<Rightarrow> string" where
  "js_String Undefined = ''undefined''"
| "js_String (Str s) = s"
| "js_String (Other t txt) = txt"

text \<open>\<^verbatim>\<open>x || d\<close>.\<close>

definition js_or :: "jsval \<Rightarrow> jsval \<Rightarrow> jsval" where
  "js_or x d = (if truthy x then x else d)"

text \<open>
  The body of a \<^verbatim>\<open>/chat\<close> response and the result of \<^verbatim>\<open>sendToProvider\<close>. The
  \<^verbatim>\<open>error\<close> field is a JavaScript value; the fields the code only passes on keep their
  declared types.
\<close>

record G4FResponse =
  r_success :: bool
  r_message :: "string option"
  r_error :: jsval
  r_provider :: "string option"
  r_timestamp :: "string option"

text \<open>
  What the \<^verbatim>\<open>catch\<close> blocks read of a caught object: \<^verbatim>\<open>error.message\<close>,
  \<^verbatim>\<open>error.code\<close> (only compared with \<^verbatim>\<open>===\<close>), and of \<^verbatim>\<open>error.response\<close> its
  \<^verbatim>\<open>status\<close> and \<^verbatim>\<open>data?.error\<close>.
\<close>

record HttpResponse =
  resp_status :: int
  resp_data_error :: jsval

record Caught =
  e_message :: jsval
  e_code :: "string option"
  e_response :: "HttpResponse option"

text \<open>The outcome of one \<^verbatim>\<open>client.post('/chat', payload)\<close>.\<close>

datatype post_outcome = Resolved G4FResponse | Rejected Caught

record Payload =
  pl_message :: string
  pl_provider :: "string option"
  pl_model :: string

record RawProvider =
  raw_id :: string
  raw_name :: string
  raw_status :: string
  raw_last_checked :: string
  raw_model :: "string option"

record G4FProvidersResponse =
  pr_success :: bool
  pr_providers :: "RawProvider list"
  pr_count :: nat

datatype get_outcome = GetResolved G4FProvidersResponse | GetRejected Caught

record G4FService =
  maxRetries :: nat
  retryDelay :: nat
  providersCache :: "Provider list"
  cacheExpiry :: int
  cacheTTL :: int

definition new_G4FService :: G4FService where
  "new_G4FService =
     \<lparr> maxRetries = 3, retryDelay = 1000, providersCache = [], cacheExpiry = 0,
       cacheTTL = 5 * 60 * 1000 \<rparr>"

subsection \<open>Strings\<close>

text \<open>
  Strings are byte strings; \<^verbatim>\<open>toLowerCase\<close> is modelled on the ASCII letters, which is
  all the patterns searched for below contain. \<^verbatim>\<open>s.includes(pat)\<close> is the contiguous
  sublist relation.
\<close>

definition toLowerCase_char :: "char \<Rightarrow> char" where
  "toLowerCase_char c =
     (let n = (of_char c :: nat) in if 65 \<le> n \<and> n \<le> 90 then char_of (n + 32) else c)"

definition toLowerCase :: "string \<Rightarrow> string" where
  "toLowerCase s = map toLowerCase_char s"

definition includes_str :: "string \<Rightarrow> string \<Rightarrow> bool" where
  "includes_str s pat = sublist pat s"

subsection \<open>Failure classification\<close>

text \<open>A \<^verbatim>\<open>TypeError\<close>: calling a method that the value does not have.\<close>

definition TypeError :: thrown where
  "TypeError = ErrorObj ''TypeError''"

text \<open>
  \<^verbatim>\<open>x?.toLowerCase() || ''\<close>: a nullish \<open>x\<close> short-circuits to \<^verbatim>\<open>undefined\<close>, a string is
  lowered, and on any other value \<^verbatim>\<open>toLowerCase\<close> is not a function.
\<close>

fun lower_or_empty :: "jsval \<Rightarrow> thrown + string" where
  "lower_or_empty Undefined = Inr []"
| "lower_or_empty (Str s) = Inr (toLowerCase s)"
| "lower_or_empty (Other t txt) = Inl TypeError"

text \<open>\<^verbatim>\<open>error.response?.data?.error\<close>.\<close>

definition data_error :: "Caught \<Rightarrow> jsval" where
  "data_error error' = (case e_response error' of None \<Rightarrow> Undefined | Some r \<Rightarrow> resp_data_error r)"

text \<open>
  \<^verbatim>\<open>isRateLimitError\<close> computes \<^verbatim>\<open>message\<close> and \<^verbatim>\<open>responseData\<close> before its
  \<^verbatim>\<open>return\<close>, so either \<^verbatim>\<open>toLowerCase\<close> call can throw before the status is compared.
\<close>

definition isRateLimitError :: "Caught \<Rightarrow> thrown + bool" where
  "isRateLimitError error' =
     (case lower_or_empty (e_message error') of
        Inl t \<Rightarrow> Inl t
      | Inr message \<Rightarrow>
          (case lower_or_empty (data_error error') of
             Inl t \<Rightarrow> Inl t
           | Inr responseData \<Rightarrow>
               Inr (includes_str message ''rate limit'' \<or>
                    includes_str message ''too many requests'' \<or>
                    includes_str responseData ''rate limit'' \<or>
                    includes_str responseData ''too many requests'' \<or>
                    (case e_response error' of None \<Rightarrow> False | Some r \<Rightarrow> resp_status r = 429))))"

text \<open>
  \<^verbatim>\<open>isConnectionError\<close>: the \<^verbatim>\<open>||\<close> chain stops at the first matching code;
  \<^verbatim>\<open>error.message?.includes(...)\<close> is \<^verbatim>\<open>undefined\<close> for a nullish message and throws
  for a value without \<^verbatim>\<open>includes\<close>.
\<close>

definition isConnectionError :: "Caught \<Rightarrow> thrown + bool" where
  "isConnectionError error' =
     (if e_code error' = Some ''ECONNREFUSED'' \<or>
         e_code error' = Some ''ENOTFOUND'' \<or>
         e_code error' = Some ''ETIMEDOUT'' then Inr True
      else (case e_message error' of
              Undefined \<Rightarrow> Inr False
            | Str s \<Rightarrow> Inr (includes_str s ''Network Error'' \<or> includes_str s ''timeout'')
            | Other t txt \<Rightarrow> Inl TypeError))"

definition getErrorMessage :: "Caught \<Rightarrow> jsval" where
  "getErrorMessage error' =
     (if truthy (data_error error') then data_error error'
      else if truthy (e_message error') then e_message error'
      else Str ''Unknown error occurred'')"

subsection \<open>Dispatch with retries\<close>

text \<open>
  \<^verbatim>\<open>new Error(v)\<close>: the message is \<^verbatim>\<open>String(v)\<close>, or empty for \<^verbatim>\<open>undefined\<close>; no
  code, no response.
\<close>

definition new_Error :: "jsval \<Rightarrow> Caught" where
  "new_Error v =
     \<lparr> e_message = Str (case v of Undefined \<Rightarrow> [] | Str s \<Rightarrow> s | Other t txt \<Rightarrow> js_String v),
       e_code = None, e_response = None \<rparr>"

text \<open>
  The body of the \<^verbatim>\<open>try\<close>: a rejected POST and the \<^verbatim>\<open>throw\<close> on a
  \<^verbatim>\<open>success: false\<close> body both arrive in the \<^verbatim>\<open>catch\<close> (\<^verbatim>\<open>Inl\<close>).
\<close>

definition try_post :: "post_outcome \<Rightarrow> Caught + G4FResponse" where
  "try_post outcome =
     (case outcome of
        Rejected e \<Rightarrow> Inl e
      | Resolved data \<Rightarrow>
          if r_success data then Inr data
          else Inl (new_Error (js_or (r_error data) (Str ''Unknown error from G4F service''))))"

text \<open>
  The state of the retry loop when it is left: the early \<^verbatim>\<open>return response.data\<close> if
  any, \<^verbatim>\<open>lastError\<close>, an exception thrown inside the \<^verbatim>\<open>catch\<close> block if any (it
  leaves the function, nothing encloses the loop), the number of POST requests made and
  the delays waited.
\<close>

record LoopExit =
  returned :: "G4FResponse option"
  lastError :: "Caught option"
  escaped :: "thrown option"
  posts :: nat
  delays :: "nat list"

text \<open>
  \<^verbatim>\<open>for (let attempt = 1; attempt <= this.maxRetries; attempt++)\<close>;
  \<open>post payload attempt\<close> is the outcome of the POST made in iteration \<open>attempt\<close>. In the
  \<^verbatim>\<open>catch\<close>, \<^verbatim>\<open>isConnectionError\<close> is reached unless the rate-limit branch continues.
\<close>

function send_loop ::
  "G4FService \<Rightarrow> (Payload \<Rightarrow> nat \<Rightarrow> post_outcome) \<Rightarrow> Payload \<Rightarrow> nat \<Rightarrow> Caught option
     \<Rightarrow> nat \<Rightarrow> nat list \<Rightarrow> LoopExit" where
  "send_loop svc post payload attempt lastError' posts' delays' =
     (if attempt \<le> maxRetries svc then
        (case try_post (post payload attempt) of
           Inr data \<Rightarrow>
             \<lparr> returned = Some data, lastError = lastError', escaped = None,
               posts = posts' + 1, delays = delays' \<rparr>
         | Inl error' \<Rightarrow>
             (case isRateLimitError error' of
                Inl t \<Rightarrow>
                  \<lparr> returned = None, lastError = Some error', escaped = Some t,
                    posts = posts' + 1, delays = delays' \<rparr>
              | Inr rateLimited \<Rightarrow>
                  if rateLimited \<and> attempt < maxRetries svc then
                    send_loop svc post payload (attempt + 1) (Some error') (posts' + 1)
                      (delays' @ [retryDelay svc * attempt])
                  else
                    (case isConnectionError error' of
                       Inl t \<Rightarrow>
                         \<lparr> returned = None, lastError = Some error', escaped = Some t,
                           posts = posts' + 1, delays = delays' \<rparr>
                     | Inr connection \<Rightarrow>
                         if connection \<and> attempt < maxRetries svc then
                           send_loop svc post payload (attempt + 1) (Some error') (posts' + 1)
                             (delays' @ [retryDelay svc * attempt])
                         else
                           \<lparr> returned = None, lastError = Some error', escaped = None,
                             posts = posts' + 1, delays = delays' \<rparr>)))
      else \<lparr> returned = None, lastError = lastError', escaped = None, posts = posts',
             delays = delays' \<rparr>)"
  by pat_completeness auto
termination
  by (relation "measure (\<lambda>(svc, post, payload, attempt, rest). maxRetries svc + 1 - attempt)") auto

declare send_loop.simps [simp del]

text \<open>
  \<^verbatim>\<open>sendToProvider\<close>: \<open>model\<close> defaults to \<^verbatim>\<open>'gpt-3.5-turbo'\<close>, \<open>nowISO\<close> is
  \<^verbatim>\<open>new Date().toISOString()\<close>. The promise rejects (\<^verbatim>\<open>Inl\<close>) with an exception that
  escaped the \<^verbatim>\<open>catch\<close> block, or if \<^verbatim>\<open>getErrorMessage\<close> is applied to a
  \<^verbatim>\<open>lastError\<close> that is still \<^verbatim>\<open>null\<close>. The second component is the number of POST
  requests made.
\<close>

definition make_payload :: "string \<Rightarrow> string option \<Rightarrow> string option \<Rightarrow> Payload" where
  "make_payload message provider model =
     \<lparr> pl_message = message, pl_provider = provider,
       pl_model = (case model of None \<Rightarrow> ''gpt-3.5-turbo'' | Some md \<Rightarrow> md) \<rparr>"

definition sendToProvider ::
  "G4FService \<Rightarrow> (Payload \<Rightarrow> nat \<Rightarrow> post_outcome) \<Rightarrow> string \<Rightarrow> string option \<Rightarrow> string option
     \<Rightarrow> string \<Rightarrow> (thrown + G4FResponse) \<times> nat" where
  "sendToProvider svc post message provider model nowISO =
     (let payload = make_payload message provider model;
          exit = send_loop svc post payload 1 None 0 []
      in (case escaped exit of
            Some t \<Rightarrow> Inl t
          | None \<Rightarrow>
              (case returned exit of
                 Some data \<Rightarrow> Inr data
               | None \<Rightarrow>
                   (case lastError exit of
                      None \<Rightarrow> Inl TypeError
                    | Some e \<Rightarrow>
                        Inr \<lparr> r_success = False, r_message = None, r_error = getErrorMessage e,
                              r_provider = provider, r_timestamp = Some nowISO \<rparr>)),
          posts exit))"

subsection \<open>Roster cache\<close>

definition mapProviderStatus :: "string \<Rightarrow> ProviderStatus" where
  "mapProviderStatus st =
     (if st = ''available'' then Available
      else if st = ''rate_limited'' then RateLimited
      else Unavailable)"

definition convert_provider :: "RawProvider \<Rightarrow> Provider" where
  "convert_provider p =
     \<lparr> p_id = raw_id p, p_name = raw_name p, p_status = mapProviderStatus (raw_status p),
       p_lastChecked = DateOf (raw_last_checked p), p_model = raw_model p \<rparr>"

text \<open>
  \<^verbatim>\<open>G4FService.getAvailableProviders\<close>: \<open>now\<close> is the clock at the cache check,
  \<open>fetch\<close> the outcome of \<^verbatim>\<open>client.get('/providers')\<close> and \<open>now'\<close> the clock when its
  response is stored. Returns the roster, the service and the number of GET requests made.
\<close>

definition stale_or_empty :: "G4FService \<Rightarrow> Provider list" where
  "stale_or_empty svc = (if length (providersCache svc) > 0 then providersCache svc else [])"

definition G4F_getAvailableProviders ::
  "G4FService \<Rightarrow> int \<Rightarrow> get_outcome \<Rightarrow> int \<Rightarrow> Provider list \<times> G4FService \<times> nat" where
  "G4F_getAvailableProviders svc now fetch now' =
     (if length (providersCache svc) > 0 \<and> now < cacheExpiry svc then (providersCache svc, svc, 0)
      else (case fetch of
              GetResolved data \<Rightarrow>
                if pr_success data then
                  (let svc' = svc\<lparr> providersCache := map convert_provider (pr_providers data),
                                   cacheExpiry := now' + cacheTTL svc \<rparr>
                   in (providersCache svc', svc', 1))
                else (stale_or_empty svc, svc, 1)
            | GetRejected e \<Rightarrow> (stale_or_empty svc, svc, 1)))"

text \<open>
  A caught object is string-typed when its message and the error field of its response
  body are strings or absent, as the TypeScript interfaces declare them.
\<close>

definition string_typed :: "Caught \<Rightarrow> bool" where
  "string_typed e =
     ((e_message e = Undefined \<or> (\<exists>s. e_message e = Str s)) \<and>
      (data_error e = Undefined \<or> (\<exists>s. data_error e = Str s)))"

definition clearCache :: "G4FService \<Rightarrow> G4FService" where
  "clearCache svc = svc\<lparr> providersCache := [], cacheExpiry := 0 \<rparr>"

section \<open>Properties of the health map\<close>

subsection \<open>One write\<close>

lemma uph_same:
  "providerHealth (updateProviderHealth m now i ok e) i =
     Some \<lparr> providerId = i, isHealthy = ok, lastChecked = DateAt now,
            consecutiveFailures =
              (if ok then 0
               else (case providerHealth m i of None \<Rightarrow> 0
                     | Some h \<Rightarrow> num_or (consecutiveFailures h) 0) + 1),
            error = (if ok then None else e) \<rparr>"
  by (simp add: updateProviderHealth_def Let_def)

lemma uph_other: "j \<noteq> i \<Longrightarrow> providerHealth (updateProviderHealth m now i ok e) j = providerHealth m j"
  by (simp add: updateProviderHealth_def Let_def)


lemma num_or_zero: "num_or x 0 = x"
  by (simp add: num_or_def)

lemma mark_failures_snoc:
  "mark_failures m i (calls @ [(now, e)]) = markProviderFailure (mark_failures m i calls) now i e"
  by (simp add: mark_failures_def)

lemma mark_failures_count:
  "calls \<noteq> [] \<Longrightarrow>
   providerHealth (mark_failures m i calls) i =
     Some \<lparr> providerId = i, isHealthy = False, lastChecked = DateAt (fst (last calls)),
            consecutiveFailures = prior_failures m i + int (length calls),
            error = snd (last calls) \<rparr>"
proof (induction calls rule: rev_induct)
  case Nil
  then show ?case by simp
next
  case (snoc c calls)
  obtain now e where c: "c = (now, e)" by (cases c)
  show ?case
  proof (cases "calls = []")
    case True
    then show ?thesis
      by (simp add: c mark_failures_def markProviderFailure_def uph_same prior_failures_def
          num_or_zero split: option.splits)
  next
    case False
    with snoc.IH show ?thesis
      by (simp add: c mark_failures_snoc markProviderFailure_def uph_same num_or_zero)
  qed
qed

lemma health_inv_uph: "health_inv m \<Longrightarrow> health_inv (updateProviderHealth m now i ok e)"
  unfolding health_inv_def
proof (intro allI impI)
  fix j h
  assume inv: "\<forall>j h. providerHealth m j = Some h \<longrightarrow> record_ok h"
    and h: "providerHealth (updateProviderHealth m now i ok e) j = Some h"
  show "record_ok h"
  proof (cases "j = i")
    case False
    with h inv show ?thesis by (simp add: uph_other)
  next
    case True
    have "0 \<le> (case providerHealth m i of None \<Rightarrow> 0 | Some h \<Rightarrow> num_or (consecutiveFailures h) 0)"
    proof (cases "providerHealth m i")
      case None
      then show ?thesis by simp
    next
      case (Some h0)
      with inv have "record_ok h0" by blast
      then have "0 \<le> consecutiveFailures h0"
        by (cases "isHealthy h0") (simp_all add: record_ok_def)
      with Some show ?thesis by (simp add: num_or_zero)
    qed
    with h True show ?thesis
      by (auto simp: uph_same record_ok_def)
  qed
qed

lemma health_inv_roster: "health_inv m \<Longrightarrow> health_inv (update_from_roster m now roster)"
  by (induction roster arbitrary: m) (simp_all add: health_inv_uph)

lemma health_inv_getAvailable: "health_inv m \<Longrightarrow> health_inv (snd (PM_getAvailableProviders m now fetched))"
  by (simp add: PM_getAvailableProviders_def health_inv_roster split: sum.splits)

lemma health_selectProvider:
  "providerHealth (snd (selectProvider m now rnd fetched pref)) =
   providerHealth (snd (PM_getAvailableProviders m now fetched))"
  by (simp add: selectProvider_def Let_def split: prod.splits option.splits)

lemma health_getFallback:
  "providerHealth (snd (getFallbackProviders m now fetched excl)) =
   providerHealth (snd (PM_getAvailableProviders m now fetched))"
  by (simp add: getFallbackProviders_def split: prod.splits)

lemma health_inv_step: "health_inv m \<Longrightarrow> health_inv (pm_step m c)"
proof (cases c)
  case (Pair now call)
  assume inv: "health_inv m"
  show ?thesis
  proof (cases call)
    case (TestProviderHealth i outcome)
    with Pair inv show ?thesis
      by (simp add: testProviderHealth_def Let_def health_inv_uph split: sum.splits thrown.splits)
  next
    case (SelectProvider rnd fetched pref)
    have "health_inv (snd (PM_getAvailableProviders m now fetched))"
      using inv by (rule health_inv_getAvailable)
    then show ?thesis
      unfolding health_inv_def Pair SelectProvider pm_step.simps health_selectProvider .
  next
    case (GetFallbackProviders fetched excl)
    have "health_inv (snd (PM_getAvailableProviders m now fetched))"
      using inv by (rule health_inv_getAvailable)
    then show ?thesis
      unfolding health_inv_def Pair GetFallbackProviders pm_step.simps health_getFallback .
  qed (use Pair inv in \<open>simp_all add: markProviderSuccess_def markProviderFailure_def
        health_inv_uph health_inv_getAvailable\<close>)
qed

lemma health_inv_run: "health_inv m \<Longrightarrow> health_inv (pm_run m calls)"
  unfolding pm_run_def
  by (induction calls arbitrary: m) (simp_all add: health_inv_step)

lemma health_inv_new: "health_inv (new_ProviderManager s mx)"
  by (simp add: health_inv_def new_ProviderManager_def)

lemma ufr_notin:
  "i \<notin> p_id ` set roster \<Longrightarrow> providerHealth (update_from_roster m now roster) i = providerHealth m i"
  by (induction roster arbitrary: m) (simp_all add: uph_other)

lemma uph_cong:
  "providerHealth m i = providerHealth m' i \<Longrightarrow>
   providerHealth (updateProviderHealth m now i ok e) i = providerHealth (updateProviderHealth m' now i ok e) i"
  by (simp add: uph_same)

lemma ufr_in:
  "distinct (map p_id roster) \<Longrightarrow> p \<in> set roster \<Longrightarrow>
   providerHealth (update_from_roster m now roster) (p_id p) =
   providerHealth (updateProviderHealth m now (p_id p) (p_status p = Available) None) (p_id p)"
proof (induction roster arbitrary: m)
  case Nil
  then show ?case by simp
next
  case (Cons q roster)
  show ?case
  proof (cases "p = q")
    case True
    with Cons.prems have "p_id p \<notin> p_id ` set roster" by auto
    with True show ?thesis by (simp add: ufr_notin)
  next
    case False
    with Cons.prems have p: "p \<in> set roster" and d: "distinct (map p_id roster)"
      and ne: "p_id p \<noteq> p_id q" by (auto simp: image_iff)
    let ?m' = "updateProviderHealth m now (p_id q) (p_status q = Available) None"
    have "providerHealth (update_from_roster ?m' now roster) (p_id p) =
          providerHealth (updateProviderHealth ?m' now (p_id p) (p_status p = Available) None) (p_id p)"
      using Cons.IH [OF d p] .
    also have "\<dots> = providerHealth (updateProviderHealth m now (p_id p) (p_status p = Available) None) (p_id p)"
      by (rule uph_cong) (simp add: uph_other ne)
    finally show ?thesis by simp
  qed
qed

subsection \<open>Failure counting\<close>

text \<open>
  Claim C2. After a non-empty sequence of \<^verbatim>\<open>markProviderFailure\<close> calls on one provider
  with no success in between, its record holds the prior count (0 for an absent record or
  a count of 0) plus the number of calls, is unhealthy and stores the error of the last
  call. One \<^verbatim>\<open>markProviderSuccess\<close> then makes the record healthy with a count of
  exactly 0 and no error. In every state reached from a new manager the count is
  non-negative, and a single write of the map never lowers a count except by setting it
  to 0 on a success.
\<close>

theorem consecutive_failures_count:
  "(calls \<noteq> [] \<longrightarrow>
      (\<exists>h. providerHealth (mark_failures m i calls) i = Some h \<and>
           consecutiveFailures h = prior_failures m i + int (length calls) \<and>
           \<not> isHealthy h \<and> error h = snd (last calls))) \<and>
   (\<exists>h. providerHealth (markProviderSuccess (mark_failures m i calls) now i) i = Some h \<and>
        isHealthy h \<and> consecutiveFailures h = 0 \<and> error h = None) \<and>
   (\<forall>j h. providerHealth (pm_run (new_ProviderManager s mx) history) j = Some h \<longrightarrow>
        0 \<le> consecutiveFailures h) \<and>
   (\<forall>j h h'. providerHealth m j = Some h \<and>
        providerHealth (updateProviderHealth m now i ok e) j = Some h' \<longrightarrow>
        consecutiveFailures h \<le> consecutiveFailures h' \<or> (ok \<and> consecutiveFailures h' = 0))"
proof (intro conjI allI impI)
  assume "calls \<noteq> []"
  then show "\<exists>h. providerHealth (mark_failures m i calls) i = Some h \<and>
           consecutiveFailures h = prior_failures m i + int (length calls) \<and>
           \<not> isHealthy h \<and> error h = snd (last calls)"
    by (simp add: mark_failures_count)
next
  show "\<exists>h. providerHealth (markProviderSuccess (mark_failures m i calls) now i) i = Some h \<and>
        isHealthy h \<and> consecutiveFailures h = 0 \<and> error h = None"
    by (simp add: markProviderSuccess_def uph_same)
next
  fix j h
  assume h: "providerHealth (pm_run (new_ProviderManager s mx) history) j = Some h"
  have "health_inv (pm_run (new_ProviderManager s mx) history)"
    by (rule health_inv_run) (rule health_inv_new)
  with h have "record_ok h" unfolding health_inv_def by blast
  then show "0 \<le> consecutiveFailures h"
    by (cases "isHealthy h") (simp_all add: record_ok_def)
next
  fix j h h'
  assume a: "providerHealth m j = Some h \<and>
        providerHealth (updateProviderHealth m now i ok e) j = Some h'"
  show "consecutiveFailures h \<le> consecutiveFailures h' \<or> (ok \<and> consecutiveFailures h' = 0)"
  proof (cases "j = i")
    case True
    with a show ?thesis by (cases ok) (auto simp: uph_same num_or_zero)
  next
    case False
    with a show ?thesis by (auto simp: uph_other)
  qed
qed

theorem consecutive_failures_count_witness:
  "(\<exists>h. providerHealth (mark_failures (new_ProviderManager None None) ''p1''
           [(1, Some ''timeout''), (2, None), (3, Some ''boom'')]) ''p1'' = Some h \<and>
        consecutiveFailures h = 3 \<and> \<not> isHealthy h \<and> error h = Some ''boom'') \<and>
   (\<exists>h. providerHealth (markProviderSuccess (mark_failures (new_ProviderManager None None) ''p1''
           [(1, Some ''timeout''), (2, None), (3, Some ''boom'')]) 4 ''p1'') ''p1'' = Some h \<and>
        isHealthy h \<and> consecutiveFailures h = 0 \<and> error h = None)"
  using consecutive_failures_count [of "[(1, Some ''timeout''), (2, None), (3, Some ''boom'')]"
      "new_ProviderManager None None" "''p1''" 4]
  by (simp add: prior_failures_def new_ProviderManager_def)

subsection \<open>The record invariant\<close>

text \<open>
  Claim C10. After any history of \<^verbatim>\<open>markProviderSuccess\<close>, \<^verbatim>\<open>markProviderFailure\<close>,
  \<^verbatim>\<open>testProviderHealth\<close>, \<^verbatim>\<open>getAvailableProviders\<close>, \<^verbatim>\<open>selectProvider\<close> and
  \<^verbatim>\<open>getFallbackProviders\<close> calls on a new manager, every record of the health map has a
  count of 0 and no error if it is healthy, and a count of at least 1 if it is not.
\<close>

theorem health_record_invariant:
  "providerHealth (pm_run (new_ProviderManager s mx) history) j = Some h \<Longrightarrow>
   (isHealthy h \<longrightarrow> consecutiveFailures h = 0 \<and> error h = None) \<and>
   (\<not> isHealthy h \<longrightarrow> 1 \<le> consecutiveFailures h)"
proof -
  assume h: "providerHealth (pm_run (new_ProviderManager s mx) history) j = Some h"
  have "health_inv (pm_run (new_ProviderManager s mx) history)"
    by (rule health_inv_run) (rule health_inv_new)
  with h have "record_ok h" unfolding health_inv_def by blast
  then show ?thesis by (simp add: record_ok_def)
qed

theorem health_record_invariant_witness:
  "\<exists>h. providerHealth (pm_run (new_ProviderManager None None)
      [(1, MarkProviderFailure ''bing'' (Some ''Test error'')),
       (2, TestProviderHealth ''bing''
             (Inr \<lparr> t_provider = ''bing'', t_status = Unavailable, t_lastChecked = DateAt 2,
                    t_error = Some ''Connection failed'' \<rparr>)),
       (3, GetAvailableProviders
             (Inr [\<lparr> p_id = ''you'', p_name = ''You.com'', p_status = RateLimited,
                     p_lastChecked = DateOf ''2023-01-01T00:00:00Z'', p_model = None \<rparr>]))])
      ''bing'' = Some h \<and> \<not> isHealthy h \<and> consecutiveFailures h = 2 \<and>
      error h = Some ''Connection failed''"
  using health_record_invariant [of None None
      "[(1, MarkProviderFailure ''bing'' (Some ''Test error'')),
       (2, TestProviderHealth ''bing''
             (Inr \<lparr> t_provider = ''bing'', t_status = Unavailable, t_lastChecked = DateAt 2,
                    t_error = Some ''Connection failed'' \<rparr>)),
       (3, GetAvailableProviders
             (Inr [\<lparr> p_id = ''you'', p_name = ''You.com'', p_status = RateLimited,
                     p_lastChecked = DateOf ''2023-01-01T00:00:00Z'', p_model = None \<rparr>]))]"
      "''bing''"
      "\<lparr> providerId = ''bing'', isHealthy = False, lastChecked = DateAt 2,
             consecutiveFailures = 2, error = Some ''Connection failed'' \<rparr>"]
  by (simp add: pm_run_def new_ProviderManager_def markProviderFailure_def testProviderHealth_def
      updateProviderHealth_def PM_getAvailableProviders_def num_or_def)

subsection \<open>Roster reads\<close>

lemmas eval_pm = pm_run_def new_ProviderManager_def markProviderFailure_def markProviderSuccess_def
  testProviderHealth_def updateProviderHealth_def PM_getAvailableProviders_def num_or_def
  selectProvider_def isProviderHealthy_def Priority_selectProvider_def default_priorityOrder_def
  is_available_def mark_failures_def getFallbackProviders_def RoundRobin_selectProvider_def
  mockProviders_def











text \<open>
  Claim C3. A successful roster read by \<^verbatim>\<open>ProviderManager.getAvailableProviders\<close>
  rewrites the health record of every provider of the roster (ids being unique within a
  roster): a provider reported \<^verbatim>\<open>available\<close> gets a healthy record with count 0 and no
  error, any other provider an unhealthy record with its count incremented.
  \<^verbatim>\<open>selectProvider\<close> and \<^verbatim>\<open>getFallbackProviders\<close> leave the health map exactly as that
  read leaves it. Hence failures recorded by \<^verbatim>\<open>markProviderFailure\<close> do not survive a
  roster read in which the provider is reported available.
\<close>

theorem roster_read_rewrites_health:
  assumes d: "distinct (map p_id roster)" and p: "p \<in> set roster"
  shows "(\<exists>h. providerHealth (snd (PM_getAvailableProviders m now (Inr roster))) (p_id p) = Some h \<and>
            (if p_status p = Available
             then isHealthy h \<and> consecutiveFailures h = 0 \<and> error h = None
             else \<not> isHealthy h \<and> consecutiveFailures h = prior_failures m (p_id p) + 1)) \<and>
         providerHealth (snd (selectProvider m now rnd (Inr roster) pref)) =
           providerHealth (snd (PM_getAvailableProviders m now (Inr roster))) \<and>
         providerHealth (snd (getFallbackProviders m now (Inr roster) excl)) =
           providerHealth (snd (PM_getAvailableProviders m now (Inr roster))) \<and>
         (p_status p = Available \<longrightarrow>
            (\<exists>h. providerHealth (snd (PM_getAvailableProviders (mark_failures m (p_id p) calls) now
                        (Inr roster))) (p_id p) = Some h \<and>
                 isHealthy h \<and> consecutiveFailures h = 0 \<and> error h = None))"
proof -
  have read: "providerHealth (snd (PM_getAvailableProviders m' now (Inr roster))) (p_id p) =
              providerHealth (updateProviderHealth m' now (p_id p) (p_status p = Available) None) (p_id p)"
    for m'
    by (simp add: PM_getAvailableProviders_def ufr_in [OF d p])
  have one: "\<exists>h. providerHealth (snd (PM_getAvailableProviders m now (Inr roster))) (p_id p) = Some h \<and>
            (if p_status p = Available
             then isHealthy h \<and> consecutiveFailures h = 0 \<and> error h = None
             else \<not> isHealthy h \<and> consecutiveFailures h = prior_failures m (p_id p) + 1)"
    by (simp add: read uph_same prior_failures_def num_or_zero split: option.splits)
  have two: "p_status p = Available \<longrightarrow>
            (\<exists>h. providerHealth (snd (PM_getAvailableProviders (mark_failures m (p_id p) calls) now
                        (Inr roster))) (p_id p) = Some h \<and>
                 isHealthy h \<and> consecutiveFailures h = 0 \<and> error h = None)"
    by (simp add: read uph_same)
  from one two show ?thesis
    by (simp only: health_selectProvider health_getFallback simp_thms)
qed

theorem roster_read_rewrites_health_witness:
  "\<exists>h. providerHealth (snd (PM_getAvailableProviders
           (mark_failures (new_ProviderManager None None) ''bing'' [(1, Some ''e''), (2, None), (3, None)])
           4 (Inr [\<lparr> p_id = ''bing'', p_name = ''Bing'', p_status = Available,
                     p_lastChecked = DateOf ''d'', p_model = None \<rparr>,
                   \<lparr> p_id = ''you'', p_name = ''You.com'', p_status = RateLimited,
                     p_lastChecked = DateOf ''d'', p_model = None \<rparr>]))) ''bing'' = Some h \<and>
        isHealthy h \<and> consecutiveFailures h = 0 \<and> error h = None"
  using roster_read_rewrites_health [of
      "[\<lparr> p_id = ''bing'', p_name = ''Bing'', p_status = Available,
                     p_lastChecked = DateOf ''d'', p_model = None \<rparr>,
                   \<lparr> p_id = ''you'', p_name = ''You.com'', p_status = RateLimited,
                     p_lastChecked = DateOf ''d'', p_model = None \<rparr>]"
      "\<lparr> p_id = ''bing'', p_name = ''Bing'', p_status = Available,
                     p_lastChecked = DateOf ''d'', p_model = None \<rparr>"
      "mark_failures (new_ProviderManager None None) ''bing'' [(1, Some ''e''), (2, None), (3, None)]"
      4 0 None "[]" "[]"]
  by simp

text \<open>
  Claim C1. The end-to-end scenario on the code, threshold 3 and roster
  \<^verbatim>\<open>[{id: "p1", status: "available"}]\<close>: the first \<^verbatim>\<open>selectProvider()\<close> returns p1;
  after three \<^verbatim>\<open>markProviderFailure("p1")\<close> calls the record counts 3 failures; the next
  \<^verbatim>\<open>selectProvider()\<close> still returns p1, because its roster read resets the record
  before the health filter runs.
\<close>

theorem selectProvider_ignores_failure_history:
  "fst (selectProvider (new_ProviderManager None (Some 3)) 0 0
          (Inr [\<lparr> p_id = ''p1'', p_name = ''P1'', p_status = Available,
                  p_lastChecked = DateOf ''d'', p_model = None \<rparr>]) None)
     = Some \<lparr> p_id = ''p1'', p_name = ''P1'', p_status = Available,
              p_lastChecked = DateOf ''d'', p_model = None \<rparr> \<and>
   map_option consecutiveFailures (providerHealth
     (pm_run (new_ProviderManager None (Some 3))
        [(0, SelectProvider 0 (Inr [\<lparr> p_id = ''p1'', p_name = ''P1'', p_status = Available,
                  p_lastChecked = DateOf ''d'', p_model = None \<rparr>]) None),
         (1, MarkProviderFailure ''p1'' None), (2, MarkProviderFailure ''p1'' None),
         (3, MarkProviderFailure ''p1'' None)]) ''p1'') = Some 3 \<and>
   fst (selectProvider
     (pm_run (new_ProviderManager None (Some 3))
        [(0, SelectProvider 0 (Inr [\<lparr> p_id = ''p1'', p_name = ''P1'', p_status = Available,
                  p_lastChecked = DateOf ''d'', p_model = None \<rparr>]) None),
         (1, MarkProviderFailure ''p1'' None), (2, MarkProviderFailure ''p1'' None),
         (3, MarkProviderFailure ''p1'' None)])
     4 0 (Inr [\<lparr> p_id = ''p1'', p_name = ''P1'', p_status = Available,
                  p_lastChecked = DateOf ''d'', p_model = None \<rparr>]) None)
     = Some \<lparr> p_id = ''p1'', p_name = ''P1'', p_status = Available,
              p_lastChecked = DateOf ''d'', p_model = None \<rparr>"
  by (simp add: eval_pm)

section \<open>Properties of the selection\<close>

subsection \<open>Preferred provider\<close>






subsection \<open>Priority strategy\<close>

lemma find_id_mem: "find (\<lambda>p. p_id p = i) av = Some p \<Longrightarrow> p \<in> set av \<and> p_id p = i"
  by (auto simp: find_Some_iff)

lemma priority_loop_None:
  "priority_loop prio av = None \<longleftrightarrow> (\<forall>i \<in> set prio. i \<notin> p_id ` set av)"
proof (induction prio)
  case Nil
  then show ?case by simp
next
  case (Cons i prio)
  show ?case
  proof (cases "find (\<lambda>p. p_id p = i) av")
    case None
    then have "i \<notin> p_id ` set av" by (auto simp: find_None_iff)
    with None Cons.IH show ?thesis by simp
  next
    case (Some p)
    then have "i \<in> p_id ` set av" using find_id_mem by force
    with Some show ?thesis by simp
  qed
qed

lemma find_id_Some:
  "i \<in> p_id ` set av \<Longrightarrow> \<exists>p. find (\<lambda>p. p_id p = i) av = Some p"
  by (cases "find (\<lambda>p. p_id p = i) av") (auto simp: find_None_iff)

lemma priority_loop_first:
  "k < length prio \<Longrightarrow> prio ! k \<in> p_id ` set av \<Longrightarrow> (\<forall>j<k. prio ! j \<notin> p_id ` set av) \<Longrightarrow>
   priority_loop prio av = find (\<lambda>p. p_id p = prio ! k) av"
proof (induction prio arbitrary: k)
  case Nil
  then show ?case by simp
next
  case (Cons i prio)
  show ?case
  proof (cases k)
    case 0
    with Cons.prems find_id_Some [of i av] show ?thesis by auto
  next
    case (Suc k')
    from Cons.prems Suc have "i \<notin> p_id ` set av" by auto
    then have none: "find (\<lambda>p. p_id p = i) av = None"
      by (auto simp: find_None_iff)
    have "priority_loop prio av = find (\<lambda>p. p_id p = prio ! k') av"
    proof (rule Cons.IH)
      show "k' < length prio" using Cons.prems Suc by simp
      show "prio ! k' \<in> p_id ` set av" using Cons.prems Suc by simp
      show "\<forall>j<k'. prio ! j \<notin> p_id ` set av"
      proof (intro allI impI)
        fix j assume "j < k'"
        then have "Suc j < k" using Suc by simp
        with Cons.prems have "(i # prio) ! Suc j \<notin> p_id ` set av" by blast
        then show "prio ! j \<notin> p_id ` set av" by simp
      qed
    qed
    with none Suc show ?thesis by simp
  qed
qed

text \<open>
  Claim C8. \<^verbatim>\<open>PriorityStrategy.selectProvider\<close> returns none exactly when no input
  provider is available. If some priority id is the id of an available provider, it
  returns the first available provider carrying the earliest such priority id. If no
  priority id matches, it returns the first available provider of the input.
\<close>

theorem priority_strategy_selection:
  "(Priority_selectProvider prio ps = None \<longleftrightarrow> filter is_available ps = []) \<and>
   (\<forall>k<length prio.
      prio ! k \<in> p_id ` set (filter is_available ps) \<and>
      (\<forall>j<k. prio ! j \<notin> p_id ` set (filter is_available ps)) \<longrightarrow>
      Priority_selectProvider prio ps = find (\<lambda>p. p_id p = prio ! k) (filter is_available ps) \<and>
      (\<exists>p \<in> set ps. Priority_selectProvider prio ps = Some p \<and> p_id p = prio ! k \<and>
           p_status p = Available)) \<and>
   (filter is_available ps \<noteq> [] \<and> (\<forall>i \<in> set prio. i \<notin> p_id ` set (filter is_available ps)) \<longrightarrow>
      Priority_selectProvider prio ps = Some (hd (filter is_available ps)))"
proof (intro conjI allI impI)
  show "Priority_selectProvider prio ps = None \<longleftrightarrow> filter is_available ps = []"
    by (simp add: Priority_selectProvider_def Let_def split: option.splits)
next
  fix k
  assume k: "k < length prio"
    and h: "prio ! k \<in> p_id ` set (filter is_available ps) \<and>
      (\<forall>j<k. prio ! j \<notin> p_id ` set (filter is_available ps))"
  let ?av = "filter is_available ps"
  have ne: "?av \<noteq> []"
  proof
    assume "?av = []"
    with h show False by simp
  qed
  from h obtain p where f: "find (\<lambda>p. p_id p = prio ! k) ?av = Some p"
    using find_id_Some by blast
  have loop: "priority_loop prio ?av = Some p"
    using priority_loop_first [OF k] h f by simp
  then show "Priority_selectProvider prio ps = find (\<lambda>p. p_id p = prio ! k) ?av"
    using ne f by (simp add: Priority_selectProvider_def Let_def)
  have sel: "Priority_selectProvider prio ps = Some p"
    using loop ne by (simp add: Priority_selectProvider_def Let_def)
  from f have "p \<in> set ?av" "p_id p = prio ! k"
    using find_id_mem by blast+
  then have "p \<in> set ps" "p_status p = Available" "p_id p = prio ! k"
    by (simp_all add: is_available_def)
  with sel show "\<exists>p \<in> set ps. Priority_selectProvider prio ps = Some p \<and> p_id p = prio ! k \<and>
           p_status p = Available"
    by blast
next
  assume h: "filter is_available ps \<noteq> [] \<and> (\<forall>i \<in> set prio. i \<notin> p_id ` set (filter is_available ps))"
  then have "priority_loop prio (filter is_available ps) = None"
    by (simp add: priority_loop_None)
  with h show "Priority_selectProvider prio ps = Some (hd (filter is_available ps))"
    by (simp add: Priority_selectProvider_def Let_def hd_conv_nth)
qed

theorem priority_strategy_selection_witness:
  "Priority_selectProvider [''C'', ''A'']
     [\<lparr> p_id = ''A'', p_name = ''a'', p_status = Available, p_lastChecked = DateAt 0, p_model = None \<rparr>,
      \<lparr> p_id = ''B'', p_name = ''b'', p_status = Available, p_lastChecked = DateAt 0, p_model = None \<rparr>,
      \<lparr> p_id = ''C'', p_name = ''c'', p_status = Available, p_lastChecked = DateAt 0, p_model = None \<rparr>]
   = Some \<lparr> p_id = ''C'', p_name = ''c'', p_status = Available, p_lastChecked = DateAt 0, p_model = None \<rparr> \<and>
   Priority_selectProvider [''nonexistent''] mockProviders = Some (mockProviders ! 0)"
proof
  let ?abc = "[\<lparr> p_id = ''A'', p_name = ''a'', p_status = Available, p_lastChecked = DateAt 0, p_model = None \<rparr>,
      \<lparr> p_id = ''B'', p_name = ''b'', p_status = Available, p_lastChecked = DateAt 0, p_model = None \<rparr>,
      \<lparr> p_id = ''C'', p_name = ''c'', p_status = Available, p_lastChecked = DateAt 0, p_model = None \<rparr>]"
  have "Priority_selectProvider [''C'', ''A''] ?abc =
        find (\<lambda>p. p_id p = [''C'', ''A''] ! 0) (filter is_available ?abc)"
    using priority_strategy_selection [of "[''C'', ''A'']" ?abc, THEN conjunct2, THEN conjunct1,
        rule_format, of 0]
    by (simp add: is_available_def)
  then show "Priority_selectProvider [''C'', ''A''] ?abc =
        Some \<lparr> p_id = ''C'', p_name = ''c'', p_status = Available, p_lastChecked = DateAt 0, p_model = None \<rparr>"
    by (simp add: is_available_def)
next
  have "Priority_selectProvider [''nonexistent''] mockProviders =
        Some (hd (filter is_available mockProviders))"
    using priority_strategy_selection [of "[''nonexistent'']" mockProviders, THEN conjunct2,
        THEN conjunct2]
    by (simp add: is_available_def mockProviders_def)
  then show "Priority_selectProvider [''nonexistent''] mockProviders = Some (mockProviders ! 0)"
    by (simp add: is_available_def mockProviders_def)
qed

subsection \<open>Round-robin strategy\<close>

lemma succ_mod_neq:
  assumes "2 \<le> (n::nat)"
  shows "c mod n \<noteq> ((c + 1) mod n) mod n"
proof -
  have "(c + 1) mod n = (c mod n + 1) mod n" by (simp add: mod_Suc_eq)
  moreover have "(c mod n + 1) mod n \<noteq> c mod n"
  proof (cases "c mod n + 1 < n")
    case True
    then show ?thesis by simp
  next
    case False
    moreover have "c mod n < n" using assms by simp
    ultimately have "c mod n + 1 = n" by linarith
    then show ?thesis using assms by auto
  qed
  ultimately show ?thesis by simp
qed

text \<open>
  Claim C9. For any cursor value and any input whose available providers have distinct
  ids and are at least two, two consecutive \<^verbatim>\<open>RoundRobinStrategy.selectProvider\<close> calls
  return \<^verbatim>\<open>available[cursor mod length]\<close>, advance the cursor by 1 modulo the length, and
  return providers with different ids.
\<close>

theorem round_robin_rotates:
  assumes d: "distinct (map p_id (filter is_available ps))"
    and n: "2 \<le> length (filter is_available ps)"
  shows "\<exists>p q c' c''.
           RoundRobin_selectProvider c ps = (Some p, c') \<and>
           RoundRobin_selectProvider c' ps = (Some q, c'') \<and>
           p = filter is_available ps ! (c mod length (filter is_available ps)) \<and>
           c' = (c + 1) mod length (filter is_available ps) \<and>
           q = filter is_available ps ! (c' mod length (filter is_available ps)) \<and>
           p_id p \<noteq> p_id q"
proof -
  let ?av = "filter is_available ps"
  let ?n = "length ?av"
  let ?i = "c mod ?n"
  let ?c' = "(c + 1) mod ?n"
  let ?i' = "?c' mod ?n"
  from n have pos: "0 < ?n" by linarith
  then have i: "?i < ?n" and i': "?i' < ?n" by simp_all
  have neq: "?i \<noteq> ?i'" using succ_mod_neq [OF n] .
  have "(map p_id ?av ! ?i = map p_id ?av ! ?i') = (?i = ?i')"
    by (rule nth_eq_iff_index_eq [OF d]) (use i i' in simp_all)
  with neq have "map p_id ?av ! ?i \<noteq> map p_id ?av ! ?i'" by blast
  then have ids: "p_id (?av ! ?i) \<noteq> p_id (?av ! ?i')"
    using i i' by simp
  have 1: "RoundRobin_selectProvider c ps = (Some (?av ! ?i), ?c')"
    using pos by (simp add: RoundRobin_selectProvider_def Let_def)
  have 2: "RoundRobin_selectProvider ?c' ps = (Some (?av ! ?i'), (?c' + 1) mod ?n)"
    using pos by (simp add: RoundRobin_selectProvider_def Let_def)
  from 1 2 ids show ?thesis by blast
qed

theorem round_robin_rotates_witness:
  "RoundRobin_selectProvider 0 mockProviders = (Some (mockProviders ! 0), 1) \<and>
   RoundRobin_selectProvider 1 mockProviders = (Some (mockProviders ! 1), 0)"
  using round_robin_rotates [of mockProviders 0]
  by (simp add: is_available_def mockProviders_def RoundRobin_selectProvider_def)

section \<open>Properties of the dispatch\<close>

subsection \<open>The retry loop\<close>

lemma maxRetries_new: "maxRetries new_G4FService = 3"
  by (simp add: new_G4FService_def)

lemma string_typed_rate: "string_typed e \<Longrightarrow> \<exists>b. isRateLimitError e = Inr b"
  by (auto simp: string_typed_def isRateLimitError_def)

lemma string_typed_connection: "string_typed e \<Longrightarrow> \<exists>b. isConnectionError e = Inr b"
  by (auto simp: string_typed_def isConnectionError_def)

lemma try_post_string_typed:
  assumes "try_post outcome = Inl e" and "\<And>e'. outcome = Rejected e' \<Longrightarrow> string_typed e'"
  shows "string_typed e"
proof (cases outcome)
  case (Rejected e')
  with assms show ?thesis by (simp add: try_post_def)
next
  case (Resolved d)
  with assms(1) have "e = new_Error (js_or (r_error d) (Str ''Unknown error from G4F service''))"
    by (simp add: try_post_def split: if_splits)
  then show ?thesis
    by (simp add: string_typed_def new_Error_def data_error_def)
qed

lemma send_loop_unfold:
  "send_loop svc post pl att le n ds =
     (if att \<le> maxRetries svc then
        (case try_post (post pl att) of
           Inr d \<Rightarrow> \<lparr> returned = Some d, lastError = le, escaped = None, posts = n + 1, delays = ds \<rparr>
         | Inl e \<Rightarrow>
             (case isRateLimitError e of
                Inl t \<Rightarrow> \<lparr> returned = None, lastError = Some e, escaped = Some t, posts = n + 1,
                           delays = ds \<rparr>
              | Inr rateLimited \<Rightarrow>
                  if rateLimited \<and> att < maxRetries svc then
                    send_loop svc post pl (att + 1) (Some e) (n + 1) (ds @ [retryDelay svc * att])
                  else
                    (case isConnectionError e of
                       Inl t \<Rightarrow> \<lparr> returned = None, lastError = Some e, escaped = Some t,
                                  posts = n + 1, delays = ds \<rparr>
                     | Inr connection \<Rightarrow>
                         if connection \<and> att < maxRetries svc then
                           send_loop svc post pl (att + 1) (Some e) (n + 1)
                             (ds @ [retryDelay svc * att])
                         else \<lparr> returned = None, lastError = Some e, escaped = None,
                                posts = n + 1, delays = ds \<rparr>)))
      else \<lparr> returned = None, lastError = le, escaped = None, posts = n, delays = ds \<rparr>)"
  by (rule send_loop.simps)

text \<open>
  What the loop does in iteration \<open>att\<close>: it stops there with the given exit, or it goes on
  to iteration \<open>att + 1\<close> after the error \<open>e\<close>.
\<close>

lemma send_loop_step:
  "(att \<le> maxRetries svc \<and> posts (send_loop svc post pl att le n ds) = n + 1) \<or>
   (\<not> att \<le> maxRetries svc \<and> posts (send_loop svc post pl att le n ds) = n) \<or>
   (\<exists>e. att < maxRetries svc \<and>
        send_loop svc post pl att le n ds =
        send_loop svc post pl (att + 1) (Some e) (n + 1) (ds @ [retryDelay svc * att]))"
proof (cases "att \<le> maxRetries svc")
  case False
  then show ?thesis by (simp add: send_loop_unfold [of svc post pl att le n ds])
next
  case le: True
  show ?thesis
  proof (cases "try_post (post pl att)")
    case (Inr d)
    with le show ?thesis by (simp add: send_loop_unfold [of svc post pl att le n ds])
  next
    case (Inl e)
    show ?thesis
    proof (cases "isRateLimitError e")
      case t: (Inl t)
      with le Inl show ?thesis by (simp add: send_loop_unfold [of svc post pl att le n ds])
    next
      case b: (Inr b)
      show ?thesis
      proof (cases "b \<and> att < maxRetries svc")
        case True
        with le Inl b have "send_loop svc post pl att le n ds =
            send_loop svc post pl (att + 1) (Some e) (n + 1) (ds @ [retryDelay svc * att])"
          by (simp add: send_loop_unfold [of svc post pl att le n ds])
        with True show ?thesis by blast
      next
        case nb: False
        show ?thesis
        proof (cases "isConnectionError e")
          case (Inl t)
          with le \<open>try_post (post pl att) = Inl e\<close> b nb show ?thesis
            by (auto simp: send_loop_unfold [of svc post pl att le n ds])
        next
          case c: (Inr c)
          show ?thesis
          proof (cases "c \<and> att < maxRetries svc")
            case True
            with le Inl b nb c have "send_loop svc post pl att le n ds =
                send_loop svc post pl (att + 1) (Some e) (n + 1) (ds @ [retryDelay svc * att])"
              by (simp add: send_loop_unfold [of svc post pl att le n ds])
            with True show ?thesis by blast
          next
            case False
            with le Inl b nb c show ?thesis
              by (auto simp: send_loop_unfold [of svc post pl att le n ds])
          qed
        qed
      qed
    qed
  qed
qed

lemma send_loop_posts:
  "n \<le> posts (send_loop svc post pl att le n ds) \<and>
   posts (send_loop svc post pl att le n ds) \<le> n + (maxRetries svc + 1 - att) \<and>
   (att \<le> maxRetries svc \<longrightarrow> n < posts (send_loop svc post pl att le n ds))"
proof (induction "maxRetries svc + 1 - att" arbitrary: att le n ds)
  case 0
  then have "\<not> att \<le> maxRetries svc" by simp
  then show ?case by (simp add: send_loop_unfold [of svc post pl att le n ds])
next
  case (Suc m)
  from send_loop_step [of att svc post pl le n ds]
  consider (stop) "att \<le> maxRetries svc" "posts (send_loop svc post pl att le n ds) = n + 1"
    | (exit) "\<not> att \<le> maxRetries svc" "posts (send_loop svc post pl att le n ds) = n"
    | (retry) e where "att < maxRetries svc"
        "send_loop svc post pl att le n ds =
         send_loop svc post pl (att + 1) (Some e) (n + 1) (ds @ [retryDelay svc * att])"
    by blast
  then show ?case
  proof cases
    case stop
    with Suc.hyps(2) show ?thesis by simp
  next
    case exit
    then show ?thesis by simp
  next
    case (retry e)
    from Suc.hyps(2) have "m = maxRetries svc + 1 - (att + 1)" by simp
    from Suc.hyps(1) [OF this, where le = "Some e" and n = "n + 1"
        and ds = "ds @ [retryDelay svc * att]"] retry
    show ?thesis by auto
  qed
qed

lemma send_loop_string_typed:
  assumes typed: "\<And>k e. post pl k = Rejected e \<Longrightarrow> string_typed e"
  shows "att \<le> maxRetries svc \<Longrightarrow>
   escaped (send_loop svc post pl att le n ds) = None \<and>
   (returned (send_loop svc post pl att le n ds) \<noteq> None \<or>
    lastError (send_loop svc post pl att le n ds) \<noteq> None)"
proof (induction "maxRetries svc + 1 - att" arbitrary: att le n ds)
  case 0
  then show ?case by simp
next
  case (Suc m)
  show ?case
  proof (cases "try_post (post pl att)")
    case (Inr d)
    with Suc.prems show ?thesis
      by (simp add: send_loop_unfold [of svc post pl att le n ds])
  next
    case (Inl e)
    then have "string_typed e"
      by (rule try_post_string_typed) (rule typed)
    then obtain b c where b: "isRateLimitError e = Inr b" and c: "isConnectionError e = Inr c"
      using string_typed_rate string_typed_connection by blast
    show ?thesis
    proof (cases "(b \<or> c) \<and> att < maxRetries svc")
      case False
      with Inl b c Suc.prems show ?thesis
        by (auto simp: send_loop_unfold [of svc post pl att le n ds])
    next
      case True
      then have step: "send_loop svc post pl att le n ds =
          send_loop svc post pl (att + 1) (Some e) (n + 1) (ds @ [retryDelay svc * att])"
        using Inl b c by (auto simp: send_loop_unfold [of svc post pl att le n ds])
      from Suc.hyps(2) have m: "m = maxRetries svc + 1 - (att + 1)" by simp
      from True have le': "att + 1 \<le> maxRetries svc" by simp
      from Suc.hyps(1) [OF m le', where le = "Some e" and n = "n + 1"
          and ds = "ds @ [retryDelay svc * att]"]
      show ?thesis unfolding step .
    qed
  qed
qed

text \<open>On every input the dispatch makes at least one and at most three POST requests.\<close>

theorem sendToProvider_posts_bound:
  "1 \<le> snd (sendToProvider new_G4FService post msg prov model ts) \<and>
   snd (sendToProvider new_G4FService post msg prov model ts) \<le> 3"
  using send_loop_posts [of 0 new_G4FService post "make_payload msg prov model" 1 None "[]"]
  by (simp add: sendToProvider_def Let_def maxRetries_new)

text \<open>
  When the message and the body error field of every rejected POST are strings or absent,
  no exception leaves the \<^verbatim>\<open>catch\<close> block and the dispatch resolves.
\<close>

theorem sendToProvider_resolves_string_typed:
  assumes "\<And>k e. post (make_payload msg prov model) k = Rejected e \<Longrightarrow> string_typed e"
  shows "\<exists>r. fst (sendToProvider new_G4FService post msg prov model ts) = Inr r"
proof -
  have "(1::nat) \<le> maxRetries new_G4FService" by (simp add: maxRetries_new)
  from send_loop_string_typed [of post "make_payload msg prov model" 1 new_G4FService None 0 "[]",
      OF assms this]
  show ?thesis
    by (auto simp: sendToProvider_def Let_def split: option.splits)
qed

subsection \<open>Failures with a non-string error field\<close>

text \<open>
  Claim C4. On the code, a POST rejected with status 429 whose response body carries an
  object in its \<^verbatim>\<open>error\<close> field is not retried: \<^verbatim>\<open>isRateLimitError\<close> calls
  \<^verbatim>\<open>toLowerCase\<close> on the object before it compares the status, the \<^verbatim>\<open>TypeError\<close>
  leaves the \<^verbatim>\<open>catch\<close> block, and the dispatch rejects after one request. With a string
  in that field the same two failures are retried and the third attempt's response is
  returned after three requests.
\<close>

theorem sendToProvider_rate_limit_rejects:
  "sendToProvider new_G4FService
     (\<lambda>pl k. if k < 3
        then Rejected \<lparr> e_message = Str ''Request failed with status code 429'',
               e_code = Some ''ERR_BAD_REQUEST'',
               e_response = Some \<lparr> resp_status = 429,
                 resp_data_error = Other True ''[object Object]'' \<rparr> \<rparr>
        else Resolved \<lparr> r_success = True, r_message = Some ''Success after retry'',
               r_error = Undefined, r_provider = Some ''bing'', r_timestamp = None \<rparr>)
     ''Hello'' (Some ''bing'') None ''2023-01-01T00:00:00Z''
   = (Inl TypeError, 1) \<and>
   sendToProvider new_G4FService
     (\<lambda>pl k. if k < 3
        then Rejected \<lparr> e_message = Str ''Request failed with status code 429'',
               e_code = Some ''ERR_BAD_REQUEST'',
               e_response = Some \<lparr> resp_status = 429,
                 resp_data_error = Str ''Rate limit exceeded'' \<rparr> \<rparr>
        else Resolved \<lparr> r_success = True, r_message = Some ''Success after retry'',
               r_error = Undefined, r_provider = Some ''bing'', r_timestamp = None \<rparr>)
     ''Hello'' (Some ''bing'') None ''2023-01-01T00:00:00Z''
   = (Inr \<lparr> r_success = True, r_message = Some ''Success after retry'',
            r_error = Undefined, r_provider = Some ''bing'', r_timestamp = None \<rparr>, 3)"
  by code_simp

text \<open>
  Claim C6. On the code, a POST rejected with status 400 whose response body carries an
  object in its \<^verbatim>\<open>error\<close> field makes \<^verbatim>\<open>sendToProvider\<close> reject to its caller after
  one request, with the \<^verbatim>\<open>TypeError\<close> thrown by the classification; no failure result
  is built, although \<^verbatim>\<open>getErrorMessage\<close> reads the same field without calling a method
  on it.
\<close>

theorem sendToProvider_rejects_to_caller:
  "sendToProvider new_G4FService
     (\<lambda>pl k. Rejected \<lparr> e_message = Str ''Request failed with status code 400'',
               e_code = Some ''ERR_BAD_REQUEST'',
               e_response = Some \<lparr> resp_status = 400,
                 resp_data_error = Other True ''[object Object]'' \<rparr> \<rparr>)
     ''Hello'' (Some ''bing'') None ''2023-01-01T00:00:00Z''
   = (Inl TypeError, 1) \<and>
   getErrorMessage \<lparr> e_message = Str ''Request failed with status code 400'',
               e_code = Some ''ERR_BAD_REQUEST'',
               e_response = Some \<lparr> resp_status = 400,
                 resp_data_error = Other True ''[object Object]'' \<rparr> \<rparr>
   = Other True ''[object Object]''"
  by code_simp

section \<open>Properties of the roster cache\<close>

text \<open>
  Claim C5, as amended. After a successful fetch the service holds the converted roster
  and expires it at the time of storing plus the TTL. If the roster is non-empty, a call
  before the expiry returns it unchanged without a request, whatever the network would
  answer. Once the expiry has passed, or if the roster fetched was empty, the next call
  makes exactly one request.
\<close>

theorem roster_cache_ttl:
  assumes ok: "pr_success data"
    and miss: "\<not> (length (providersCache svc) > 0 \<and> t0 < cacheExpiry svc)"
  shows "G4F_getAvailableProviders svc t0 (GetResolved data) t1 =
           (map convert_provider (pr_providers data),
            svc\<lparr> providersCache := map convert_provider (pr_providers data),
                 cacheExpiry := t1 + cacheTTL svc \<rparr>, 1) \<and>
         (pr_providers data \<noteq> [] \<and> t2 < t1 + cacheTTL svc \<longrightarrow>
            G4F_getAvailableProviders
              (fst (snd (G4F_getAvailableProviders svc t0 (GetResolved data) t1))) t2 fetch2 t3 =
            (map convert_provider (pr_providers data),
             fst (snd (G4F_getAvailableProviders svc t0 (GetResolved data) t1)), 0)) \<and>
         (t1 + cacheTTL svc \<le> t2 \<or> pr_providers data = [] \<longrightarrow>
            snd (snd (G4F_getAvailableProviders
              (fst (snd (G4F_getAvailableProviders svc t0 (GetResolved data) t1))) t2 fetch2 t3)) = 1)"
proof -
  have first: "G4F_getAvailableProviders svc t0 (GetResolved data) t1 =
           (map convert_provider (pr_providers data),
            svc\<lparr> providersCache := map convert_provider (pr_providers data),
                 cacheExpiry := t1 + cacheTTL svc \<rparr>, 1)"
    using ok miss by (simp add: G4F_getAvailableProviders_def Let_def)
  show ?thesis
    unfolding first
    by (auto simp: G4F_getAvailableProviders_def Let_def split: get_outcome.splits)
qed

theorem roster_cache_ttl_witness:
  "G4F_getAvailableProviders
     (fst (snd (G4F_getAvailableProviders new_G4FService 1000
        (GetResolved \<lparr> pr_success = True,
           pr_providers = [\<lparr> raw_id = ''bing'', raw_name = ''Bing'', raw_status = ''available'',
                             raw_last_checked = ''2023-01-01T00:00:00Z'', raw_model = None \<rparr>],
           pr_count = 1 \<rparr>) 1010)))
     2000 (GetRejected \<lparr> e_message = Str ''Network error'', e_code = None, e_response = None \<rparr>) 2010
   = ([\<lparr> p_id = ''bing'', p_name = ''Bing'', p_status = Available,
         p_lastChecked = DateOf ''2023-01-01T00:00:00Z'', p_model = None \<rparr>],
      fst (snd (G4F_getAvailableProviders new_G4FService 1000
        (GetResolved \<lparr> pr_success = True,
           pr_providers = [\<lparr> raw_id = ''bing'', raw_name = ''Bing'', raw_status = ''available'',
                             raw_last_checked = ''2023-01-01T00:00:00Z'', raw_model = None \<rparr>],
           pr_count = 1 \<rparr>) 1010)),
      0) \<and>
   snd (snd (G4F_getAvailableProviders
     (fst (snd (G4F_getAvailableProviders new_G4FService 1000
        (GetResolved \<lparr> pr_success = True,
           pr_providers = [\<lparr> raw_id = ''bing'', raw_name = ''Bing'', raw_status = ''available'',
                             raw_last_checked = ''2023-01-01T00:00:00Z'', raw_model = None \<rparr>],
           pr_count = 1 \<rparr>) 1010)))
     301010 (GetRejected \<lparr> e_message = Str ''Network error'', e_code = None, e_response = None \<rparr>)
     301020)) = 1"
proof -
  let ?data = "\<lparr> pr_success = True,
           pr_providers = [\<lparr> raw_id = ''bing'', raw_name = ''Bing'', raw_status = ''available'',
                             raw_last_checked = ''2023-01-01T00:00:00Z'', raw_model = None \<rparr>],
           pr_count = 1 \<rparr>"
  let ?rej = "GetRejected \<lparr> e_message = Str ''Network error'', e_code = None, e_response = None \<rparr>"
  have ok: "pr_success ?data" by simp
  have miss: "\<not> (length (providersCache new_G4FService) > 0 \<and> 1000 < cacheExpiry new_G4FService)"
    by (simp add: new_G4FService_def)
  have within: "pr_providers ?data \<noteq> [] \<and> 2000 < 1010 + cacheTTL new_G4FService"
    by (simp add: new_G4FService_def)
  have expired: "1010 + cacheTTL new_G4FService \<le> 301010 \<or> pr_providers ?data = []"
    by (simp add: new_G4FService_def)
  note hit = roster_cache_ttl [OF ok miss, of 1010 2000 ?rej 2010, THEN conjunct2, THEN conjunct1,
      rule_format, OF within]
  note refetch = roster_cache_ttl [OF ok miss, of 1010 301010 ?rej 301020, THEN conjunct2,
      THEN conjunct2, rule_format, OF expired]
  from hit refetch show ?thesis
    by (simp add: convert_provider_def mapProviderStatus_def)
qed

text \<open>
  Claim C5 as stated fails for an empty roster: the cache is consulted only when it is
  non-empty, so after a successful fetch of an empty roster the next call within the TTL
  makes a request again.
\<close>

theorem empty_roster_refetched_counterexample:
  "2000 < cacheExpiry (fst (snd (G4F_getAvailableProviders new_G4FService 1000
        (GetResolved \<lparr> pr_success = True, pr_providers = [], pr_count = 0 \<rparr>) 1010))) \<and>
   snd (snd (G4F_getAvailableProviders
     (fst (snd (G4F_getAvailableProviders new_G4FService 1000
        (GetResolved \<lparr> pr_success = True, pr_providers = [], pr_count = 0 \<rparr>) 1010)))
     2000 (GetResolved \<lparr> pr_success = True, pr_providers = [], pr_count = 0 \<rparr>) 2010)) = 1"
  by (simp add: G4F_getAvailableProviders_def new_G4FService_def)

end
